theory Spec2Isabelle
  imports Main
begin

section \<open>Python values\<close>

text \<open>
  The two modules \<^verbatim>\<open>events.py\<close> and \<^verbatim>\<open>uevents.py\<close> implement the same dispatcher and
  differ in four places: how an event's attribute \<^verbatim>\<open>type\<close> is found, how the decorator
  \<^verbatim>\<open>on_event\<close> records its mark, how \<^verbatim>\<open>push_handlers\<close> discovers marked members, and
  which exceptions \<^verbatim>\<open>dispatch\<close> catches. One model covers both, with the module as a
  parameter.
\<close>

datatype impl = Events | UEvents

text \<open>
  Exceptions. \<^verbatim>\<open>SystemExit\<close>, \<^verbatim>\<open>KeyboardInterrupt\<close> and \<^verbatim>\<open>GeneratorExit\<close> derive from
  \<^verbatim>\<open>BaseException\<close> only, and so does \<open>OtherBaseException n\<close>, a class named \<open>n\<close> that a
  program derives from \<^verbatim>\<open>BaseException\<close> directly. The others derive from \<^verbatim>\<open>Exception\<close>;
  \<open>OtherException n\<close> is any further class below \<^verbatim>\<open>Exception\<close>, such as \<^verbatim>\<open>ValueError\<close>.
\<close>

datatype exc = AssertionError | IndexError | TypeError | KeyError | AttributeError
  | OtherException string | SystemExit | KeyboardInterrupt | GeneratorExit
  | OtherBaseException string

fun is_Exception :: "exc \<Rightarrow> bool" where
  "is_Exception SystemExit = False"
| "is_Exception KeyboardInterrupt = False"
| "is_Exception GeneratorExit = False"
| "is_Exception (OtherBaseException n) = False"
| "is_Exception _ = True"

text \<open>
  The values the dispatcher handles. \<open>PFunc f\<close> is the function object with identity
  \<open>f\<close>, \<open>PMethod obj f\<close> the method \<open>f\<close> bound to the instance \<open>obj\<close>, \<open>PInst obj\<close>
  an instance of a user class that defines neither \<^verbatim>\<open>__bool__\<close>, \<^verbatim>\<open>__len__\<close>,
  \<^verbatim>\<open>__eq__\<close> nor \<^verbatim>\<open>__hash__\<close>, \<open>PBuiltin n\<close> an attribute supplied by \<^verbatim>\<open>dict\<close> or
  \<^verbatim>\<open>object\<close>. \<open>PEventClass c\<close> is \<^verbatim>\<open>Event\<close> or a subclass of it whose class attribute
  \<^verbatim>\<open>type\<close> is \<open>c\<close>; \<open>PEvent c d\<close> is an instance of such a class holding the mapping
  \<open>d\<close> (\<^verbatim>\<open>Event\<close> derives from \<^verbatim>\<open>dict\<close>).
\<close>

datatype pyval = PNone | PBool bool | PInt int | PStr string | PTuple "pyval list"
  | PFunc nat | PMethod nat nat | PInst nat | PBuiltin string
  | PEventClass pyval
  | PEvent pyval "(pyval \<times> pyval) list"

type_synonym pydict = "(pyval \<times> pyval) list"

text \<open>Truth value testing, as \<^verbatim>\<open>if x:\<close> does it.\<close>

fun truthy :: "pyval \<Rightarrow> bool" where
  "truthy PNone = False"
| "truthy (PBool b) = b"
| "truthy (PInt i) = (i \<noteq> 0)"
| "truthy (PStr s) = (s \<noteq> [])"
| "truthy (PTuple xs) = (xs \<noteq> [])"
| "truthy (PEvent c d) = (d \<noteq> [])"
| "truthy _ = True"

text \<open>A \<^verbatim>\<open>dict\<close> (hence an event) is unhashable, and so is a tuple that holds one.\<close>

fun hashable :: "pyval \<Rightarrow> bool" where
  "hashable (PEvent c d) = False"
| "hashable (PTuple xs) = list_all hashable xs"
| "hashable _ = True"

text \<open>
  Equality of hashable values as a \<^verbatim>\<open>dict\<close> sees it: \<^verbatim>\<open>True == 1\<close> and
  \<^verbatim>\<open>False == 0\<close>, tuples compare by components, functions and instances by identity.
\<close>

fun norm :: "pyval \<Rightarrow> pyval" where
  "norm (PBool b) = PInt (if b then 1 else 0)"
| "norm (PTuple xs) = PTuple (map norm xs)"
| "norm v = v"

definition py_eq :: "pyval \<Rightarrow> pyval \<Rightarrow> bool" where
  "py_eq a b = (norm a = norm b)"

section \<open>Dictionaries\<close>

text \<open>
  A \<^verbatim>\<open>dict\<close> is an association list in insertion order. Storing under a key that is
  present replaces the value and keeps the position and the first key object. Every
  operation that hashes its key raises \<^verbatim>\<open>TypeError\<close> on an unhashable one.
\<close>

fun dict_lookup :: "pydict \<Rightarrow> pyval \<Rightarrow> pyval option" where
  "dict_lookup [] k = None"
| "dict_lookup ((k', v) # d) k = (if py_eq k' k then Some v else dict_lookup d k)"

fun dict_store :: "pydict \<Rightarrow> pyval \<Rightarrow> pyval \<Rightarrow> pydict" where
  "dict_store [] k v = [(k, v)]"
| "dict_store ((k', v') # d) k v =
     (if py_eq k' k then (k', v) # d else (k', v') # dict_store d k v)"

definition dict_get :: "pydict \<Rightarrow> pyval \<Rightarrow> exc + pyval" where
  \<comment> \<open>\<^verbatim>\<open>d.get(k, None)\<close>\<close>
  "dict_get d k =
     (if hashable k then Inr (case dict_lookup d k of None \<Rightarrow> PNone | Some v \<Rightarrow> v)
      else Inl TypeError)"

definition dict_getitem :: "pydict \<Rightarrow> pyval \<Rightarrow> exc + pyval" where
  \<comment> \<open>\<^verbatim>\<open>d[k]\<close>\<close>
  "dict_getitem d k =
     (if hashable k then (case dict_lookup d k of None \<Rightarrow> Inl KeyError | Some v \<Rightarrow> Inr v)
      else Inl TypeError)"

definition dict_setitem :: "pydict \<Rightarrow> pyval \<Rightarrow> pyval \<Rightarrow> exc + pydict" where
  \<comment> \<open>\<^verbatim>\<open>d[k] = v\<close>\<close>
  "dict_setitem d k v = (if hashable k then Inr (dict_store d k v) else Inl TypeError)"

definition dict_contains :: "pydict \<Rightarrow> pyval \<Rightarrow> exc + bool" where
  \<comment> \<open>\<^verbatim>\<open>k in d\<close>\<close>
  "dict_contains d k = (if hashable k then Inr (dict_lookup d k \<noteq> None) else Inl TypeError)"

section \<open>Events\<close>

text \<open>
  \<^verbatim>\<open>Event(**kwargs)\<close> on a class whose attribute \<^verbatim>\<open>type\<close> is \<open>c\<close>. In \<^verbatim>\<open>events.py\<close>
  \<^verbatim>\<open>Bunch.__init__\<close> passes the keywords to \<^verbatim>\<open>dict.__init__\<close>; in \<^verbatim>\<open>uevents.py\<close>
  \<^verbatim>\<open>Event.__init__\<close> passes them to \<^verbatim>\<open>self.update\<close>. Both fill the mapping in the order
  given. Positional arguments of the constructor are not modelled.
\<close>

definition Event_init :: "impl \<Rightarrow> pyval \<Rightarrow> (string \<times> pyval) list \<Rightarrow> pyval" where
  "Event_init impl c kwargs = PEvent c (foldl (\<lambda>d (k, v). dict_store d (PStr k) v) [] kwargs)"

text \<open>
  The instance dictionary that attribute lookup consults. \<^verbatim>\<open>Bunch.__init__\<close> sets
  \<^verbatim>\<open>self.__dict__ = self\<close>, so in \<^verbatim>\<open>events.py\<close> it is the mapping itself; in
  \<^verbatim>\<open>uevents.py\<close> it is the ordinary one, empty after construction (attributes assigned
  later are not modelled).
\<close>

fun instance_dict :: "impl \<Rightarrow> pydict \<Rightarrow> pydict" where
  "instance_dict Events d = d"
| "instance_dict UEvents d = []"

text \<open>
  Attribute access \<^verbatim>\<open>e.name\<close> on the event \<open>PEvent c d\<close>. The class attribute \<^verbatim>\<open>type\<close> is
  in the source; everything else the class supplies (inherited from \<^verbatim>\<open>dict\<close> and
  \<^verbatim>\<open>object\<close>, and \<^verbatim>\<open>event_types\<close>) is the parameter \<open>ns\<close>, which gives for a name
  whether the class attribute is a data descriptor, and its value. Python looks for a
  data descriptor of the class first, then in the instance dictionary, then for any
  other class attribute; \<^verbatim>\<open>uevents.py\<close> adds \<^verbatim>\<open>__getattr__\<close>, called when all of these
  fail, which returns \<^verbatim>\<open>self[name]\<close>.
\<close>

definition Event_getattr ::
  "impl \<Rightarrow> (string \<Rightarrow> (bool \<times> pyval) option) \<Rightarrow> pyval \<Rightarrow> pydict \<Rightarrow> string \<Rightarrow> exc + pyval" where
  "Event_getattr impl ns c d name =
     (let cls = (if name = ''type'' then Some (False, c) else ns name) in
      case cls of
        Some (True, v) \<Rightarrow> Inr v
      | _ \<Rightarrow>
         (case dict_lookup (instance_dict impl d) (PStr name) of
            Some v \<Rightarrow> Inr v
          | None \<Rightarrow>
             (case cls of
                Some (_, v) \<Rightarrow> Inr v
              | None \<Rightarrow>
                 (case impl of
                    Events \<Rightarrow> Inl AttributeError
                  | UEvents \<Rightarrow> dict_getitem d (PStr name)))))"

text \<open>Item access \<^verbatim>\<open>e[name]\<close>.\<close>

definition Event_getitem :: "pydict \<Rightarrow> string \<Rightarrow> exc + pyval" where
  "Event_getitem d name = dict_getitem d (PStr name)"

text \<open>
  The expression \<^verbatim>\<open>event.type\<close> where the source evaluates it: on a class, and on an
  instance. Every use in the source is guarded by \<^verbatim>\<open>isinstance\<close> or \<^verbatim>\<open>issubclass\<close>, so
  the last equation is never reached.
\<close>

fun type_attr :: "impl \<Rightarrow> pyval \<Rightarrow> pyval" where
  "type_attr impl (PEventClass c) = c"
| "type_attr Events (PEvent c d) =
     (case dict_lookup d (PStr ''type'') of Some v \<Rightarrow> v | None \<Rightarrow> c)"
| "type_attr UEvents (PEvent c d) = c"
| "type_attr impl v = PNone"

fun isinstance_Event :: "pyval \<Rightarrow> bool" where
  "isinstance_Event (PEvent c d) = True"
| "isinstance_Event v = False"

fun issubclass_Event :: "pyval \<Rightarrow> bool" where
  \<comment> \<open>\<^verbatim>\<open>inspect.isclass(event) and issubclass(event, Event)\<close>\<close>
  "issubclass_Event (PEventClass c) = True"
| "issubclass_Event v = False"

definition is_event :: "impl \<Rightarrow> pyval \<Rightarrow> bool" where
  "is_event impl event =
     (issubclass_Event event \<or> (isinstance_Event event \<and> type_attr impl event \<noteq> PNone))"

section \<open>Marking handlers: \<^verbatim>\<open>on_event\<close>\<close>

text \<open>
  What the decorator can write to: the attribute dictionary of every function object
  (\<^verbatim>\<open>events.py\<close> sets \<^verbatim>\<open>func._handler_for\<close>) and the module global
  \<^verbatim>\<open>_handler_to_event\<close> of \<^verbatim>\<open>uevents.py\<close>, a \<^verbatim>\<open>dict\<close> keyed by the callable.
\<close>

record marks =
  func_attrs :: "nat \<Rightarrow> pydict"
  handler_to_event :: pydict

text \<open>
  \<^verbatim>\<open>on_event(event)(func)\<close> for a function object \<open>func\<close>: the decorator returns the
  function and the marks as it leaves them.
\<close>

definition mark_target :: "impl \<Rightarrow> pyval \<Rightarrow> pyval" where
  \<comment> \<open>\<^verbatim>\<open>event.type if is_event(event) else event\<close>\<close>
  "mark_target impl event = (if is_event impl event then type_attr impl event else event)"

definition on_event :: "impl \<Rightarrow> pyval \<Rightarrow> nat \<Rightarrow> marks \<Rightarrow> pyval \<times> marks" where
  "on_event impl event func m =
     (let target = mark_target impl event in
      case impl of
        Events \<Rightarrow>
          (PFunc func,
           m\<lparr>func_attrs := (func_attrs m)
                (func := dict_store (func_attrs m func) (PStr ''_handler_for'') target)\<rparr>)
      | UEvents \<Rightarrow>
          (PFunc func,
           m\<lparr>handler_to_event := dict_store (handler_to_event m) (PFunc func) target\<rparr>))"

text \<open>
  \<^verbatim>\<open>getattr(x, '_handler_for', None)\<close> and \<^verbatim>\<open>hasattr(x, '_handler_for')\<close> of
  \<^verbatim>\<open>events.py\<close>: a bound method passes the lookup on to its function, a \<^verbatim>\<open>Bunch\<close> looks
  in its own mapping, and no other value of the model carries the attribute.
\<close>

fun handler_for_attr :: "marks \<Rightarrow> pyval \<Rightarrow> pyval option" where
  "handler_for_attr m (PFunc f) = dict_lookup (func_attrs m f) (PStr ''_handler_for'')"
| "handler_for_attr m (PMethod obj f) = dict_lookup (func_attrs m f) (PStr ''_handler_for'')"
| "handler_for_attr m (PEvent c d) = dict_lookup d (PStr ''_handler_for'')"
| "handler_for_attr m v = None"

section \<open>The dispatcher\<close>

text \<open>
  The state a dispatcher call runs in: the attribute \<^verbatim>\<open>_handler_stack\<close> (\<open>None\<close> while it
  has never been set), whatever else the handlers can reach (\<open>world\<close>), the records sent to
  the logger, and, as a ghost field, the calls made to handlers, oldest first.
\<close>

record 'w state =
  handler_stack :: "pydict list option"
  world :: 'w
  calls :: "(pyval \<times> pyval) list"
  logged :: "(pyval \<times> exc) list"

definition layers :: "'w state \<Rightarrow> pydict list" where
  \<comment> \<open>\<^verbatim>\<open>getattr(self, '_handler_stack', [])\<close>\<close>
  "layers st = (case handler_stack st of None \<Rightarrow> [] | Some s \<Rightarrow> s)"

subsection \<open>\<^verbatim>\<open>push_handlers\<close>\<close>

definition ismethod :: "pyval \<Rightarrow> bool" where
  "ismethod v = (case v of PMethod obj f \<Rightarrow> True | _ \<Rightarrow> False)"

text \<open>
  The members a positional argument contributes. \<^verbatim>\<open>inspect.getmembers\<close> is library
  code: \<open>getmembers obj\<close> is the list of (name, value) pairs it returns for \<open>obj\<close>.
\<close>

definition members_of ::
  "impl \<Rightarrow> marks \<Rightarrow> (pyval \<Rightarrow> (string \<times> pyval) list) \<Rightarrow> pyval \<Rightarrow> exc + (string \<times> pyval) list" where
  "members_of impl m getmembers obj =
     (case impl of
        Events \<Rightarrow>
          (if handler_for_attr m obj \<noteq> None then Inr [([], obj)]
           else Inr (filter (\<lambda>(name, v). ismethod v) (getmembers obj)))
      | UEvents \<Rightarrow>
          (case dict_contains (handler_to_event m) obj of
             Inl x \<Rightarrow> Inl x
           | Inr True \<Rightarrow> Inr [([], obj)]
           | Inr False \<Rightarrow> Inr (getmembers obj)))"

definition mark_of :: "impl \<Rightarrow> marks \<Rightarrow> pyval \<Rightarrow> exc + pyval" where
  \<comment> \<open>\<^verbatim>\<open>getattr(method, '_handler_for', None)\<close>, \<^verbatim>\<open>_handler_to_event.get(method)\<close>\<close>
  "mark_of impl m method =
     (case impl of
        Events \<Rightarrow> Inr (case handler_for_attr m method of None \<Rightarrow> PNone | Some v \<Rightarrow> v)
      | UEvents \<Rightarrow> dict_get (handler_to_event m) method)"

text \<open>
  The loops of \<^verbatim>\<open>push_handlers\<close> write into the layer that is already on the stack, so
  a loop that raises leaves the layer as far as it was filled: each returns the exception,
  if any, and the layer.
\<close>

fun register_members ::
  "impl \<Rightarrow> marks \<Rightarrow> (string \<times> pyval) list \<Rightarrow> pydict \<Rightarrow> exc option \<times> pydict" where
  "register_members impl m [] layer = (None, layer)"
| "register_members impl m ((name, method) # ms) layer =
     (if take 2 name = ''__'' then register_members impl m ms layer
      else
        (case mark_of impl m method of
           Inl x \<Rightarrow> (Some x, layer)
         | Inr event \<Rightarrow>
            (if truthy event then
               (case dict_setitem layer
                       (if isinstance_Event event \<and> type_attr impl event \<noteq> PNone
                        then type_attr impl event else event)
                       method of
                  Inl x \<Rightarrow> (Some x, layer)
                | Inr layer' \<Rightarrow> register_members impl m ms layer')
             else register_members impl m ms layer)))"

text \<open>
  Whether the body of that loop stores the member \<open>(name, method)\<close> under a key equal
  to \<open>k\<close>: the name does not start with two underscores, the mark is read without an
  exception and is truthy, and the key made of it equals \<open>k\<close>.
\<close>

definition registers_for :: "impl \<Rightarrow> marks \<Rightarrow> pyval \<Rightarrow> string \<times> pyval \<Rightarrow> bool" where
  "registers_for impl m k member =
     (case member of (name, method) \<Rightarrow>
        (if take 2 name = ''__'' then False
         else
           (case mark_of impl m method of
              Inl x \<Rightarrow> False
            | Inr event \<Rightarrow>
                truthy event \<and>
                py_eq (if isinstance_Event event \<and> type_attr impl event \<noteq> PNone
                       then type_attr impl event else event) k)))"

fun register_args ::
  "impl \<Rightarrow> marks \<Rightarrow> (pyval \<Rightarrow> (string \<times> pyval) list) \<Rightarrow> pyval list \<Rightarrow> pydict
     \<Rightarrow> exc option \<times> pydict" where
  "register_args impl m getmembers [] layer = (None, layer)"
| "register_args impl m getmembers (obj # args) layer =
     (case members_of impl m getmembers obj of
        Inl x \<Rightarrow> (Some x, layer)
      | Inr members \<Rightarrow>
         (case register_members impl m members layer of
            (Some x, layer') \<Rightarrow> (Some x, layer')
          | (None, layer') \<Rightarrow> register_args impl m getmembers args layer'))"

fun register_kwargs :: "impl \<Rightarrow> (string \<times> pyval) list \<Rightarrow> pydict \<Rightarrow> exc option \<times> pydict" where
  "register_kwargs impl [] layer = (None, layer)"
| "register_kwargs impl ((name, handler) # kwargs) layer =
     (case dict_setitem layer
             (if is_event impl (PStr name) then type_attr impl (PStr name) else PStr name)
             handler of
        Inl x \<Rightarrow> (Some x, layer)
      | Inr layer' \<Rightarrow> register_kwargs impl kwargs layer')"

definition push_handlers ::
  "impl \<Rightarrow> marks \<Rightarrow> (pyval \<Rightarrow> (string \<times> pyval) list) \<Rightarrow> pyval list \<Rightarrow> (string \<times> pyval) list
     \<Rightarrow> 'w state \<Rightarrow> (exc + unit) \<times> 'w state" where
  "push_handlers impl m getmembers args kwargs st =
     (case register_args impl m getmembers args [] of
        (Some x, layer) \<Rightarrow> (Inl x, st\<lparr>handler_stack := Some (layers st @ [layer])\<rparr>)
      | (None, layer) \<Rightarrow>
         (case register_kwargs impl kwargs layer of
            (Some x, layer') \<Rightarrow> (Inl x, st\<lparr>handler_stack := Some (layers st @ [layer'])\<rparr>)
          | (None, layer') \<Rightarrow> (Inr (), st\<lparr>handler_stack := Some (layers st @ [layer'])\<rparr>)))"

subsection \<open>\<^verbatim>\<open>pop_handlers\<close>\<close>

definition pop_handlers :: "'w state \<Rightarrow> (exc + pydict) \<times> 'w state" where
  "pop_handlers st =
     (if layers st = [] then (Inl IndexError, st)
      else (Inr (last (layers st)), st\<lparr>handler_stack := Some (butlast (layers st))\<rparr>))"

subsection \<open>\<^verbatim>\<open>dispatch\<close>\<close>

text \<open>
  A handler is code of the caller. \<open>beh h e (s, w)\<close> is what calling the callable \<open>h\<close> with
  the event \<open>e\<close> does when the stack list holds \<open>s\<close> and the rest of the program state is
  \<open>w\<close>: it returns a value or raises, and leaves the list and the rest as it returns them.
  A handler can change the list only in place (as \<^verbatim>\<open>push_handlers\<close> and \<^verbatim>\<open>pop_handlers\<close>
  do); rebinding or deleting the attribute during a dispatch is not modelled.
\<close>

datatype outcome = Returns pyval | Raises exc

type_synonym 'w behaviour =
  "pyval \<Rightarrow> pyval \<Rightarrow> pydict list \<times> 'w \<Rightarrow> outcome \<times> pydict list \<times> 'w"

text \<open>Calling a value: plain data and \<^verbatim>\<open>dict\<close> instances are not callable.\<close>

fun invoke :: "'w behaviour \<Rightarrow> pyval \<Rightarrow> pyval \<Rightarrow> pydict list \<times> 'w \<Rightarrow> outcome \<times> pydict list \<times> 'w" where
  "invoke beh PNone e s = (Raises TypeError, s)"
| "invoke beh (PBool b) e s = (Raises TypeError, s)"
| "invoke beh (PInt i) e s = (Raises TypeError, s)"
| "invoke beh (PStr t) e s = (Raises TypeError, s)"
| "invoke beh (PTuple xs) e s = (Raises TypeError, s)"
| "invoke beh (PEvent c d) e s = (Raises TypeError, s)"
| "invoke beh h e s = beh h e s"

text \<open>
  The clause around the call: \<^verbatim>\<open>except:\<close> in \<^verbatim>\<open>events.py\<close>,
  \<^verbatim>\<open>except Exception as exc:\<close> in \<^verbatim>\<open>uevents.py\<close>.
\<close>

fun catches :: "impl \<Rightarrow> exc \<Rightarrow> bool" where
  "catches Events x = True"
| "catches UEvents x = is_Exception x"

datatype signal = Continue | Break | Propagate exc

text \<open>
  The \<^verbatim>\<open>try\<close> statement of the inner loop, for a handler that passed \<^verbatim>\<open>if handler:\<close>.
\<close>

definition try_handler ::
  "impl \<Rightarrow> 'w behaviour \<Rightarrow> pyval \<Rightarrow> pyval \<Rightarrow> 'w state \<Rightarrow> signal \<times> 'w state" where
  "try_handler impl beh handler event st =
     (case invoke beh handler event (layers st, world st) of
        (r, s', w') \<Rightarrow>
          (let st' = st\<lparr>handler_stack := Some s', world := w',
                         calls := calls st @ [(handler, event)]\<rparr>
           in case r of
                Returns v \<Rightarrow> (if truthy v then (Break, st') else (Continue, st'))
              | Raises x \<Rightarrow>
                  (if catches impl x
                   then (Continue, st'\<lparr>logged := logged st' @ [(handler, x)]\<rparr>)
                   else (Propagate x, st'))))"

text \<open>
  The inner loop \<^verbatim>\<open>for handlers in reversed(self._handler_stack)\<close>. The iterator that
  \<^verbatim>\<open>reversed\<close> makes of a list keeps an index, starting at the last position; each step
  yields the element at the index if the index is still inside the list as it is then,
  and ends the loop otherwise. \<open>walk impl beh event n st\<close> runs the loop from index
  \<open>n - 1\<close> down.
\<close>

fun walk :: "impl \<Rightarrow> 'w behaviour \<Rightarrow> pyval \<Rightarrow> nat \<Rightarrow> 'w state \<Rightarrow> exc option \<times> 'w state" where
  "walk impl beh event 0 st = (None, st)"
| "walk impl beh event (Suc i) st =
     (if i < length (layers st) then
        (case dict_get (layers st ! i) (type_attr impl event) of
           Inl x \<Rightarrow> (Some x, st)
         | Inr handler \<Rightarrow>
            (if truthy handler then
               (case try_handler impl beh handler event st of
                  (Continue, st') \<Rightarrow> walk impl beh event i st'
                | (Break, st') \<Rightarrow> (None, st')
                | (Propagate x, st') \<Rightarrow> (Some x, st'))
             else walk impl beh event i st))
      else (None, st))"

fun dispatch_events ::
  "impl \<Rightarrow> 'w behaviour \<Rightarrow> pyval list \<Rightarrow> 'w state \<Rightarrow> (exc + unit) \<times> 'w state" where
  "dispatch_events impl beh [] st = (Inr (), st)"
| "dispatch_events impl beh (event # events) st =
     (if isinstance_Event event then
        (case walk impl beh event (length (layers st)) st of
           (Some x, st') \<Rightarrow> (Inl x, st')
         | (None, st') \<Rightarrow> dispatch_events impl beh events st')
      else (Inl AssertionError, st))"

definition dispatch ::
  "impl \<Rightarrow> 'w behaviour \<Rightarrow> pyval list \<Rightarrow> 'w state \<Rightarrow> (exc + unit) \<times> 'w state" where
  "dispatch impl beh events st =
     dispatch_events impl beh events
       (if handler_stack st = None then st\<lparr>handler_stack := Some []\<rparr> else st)"

section \<open>Concrete inputs\<close>

text \<open>
  The states, marks and handler behaviours at which the theorems below are evaluated.
  \<open>st0\<close> is a dispatcher on which nothing has been called yet.
\<close>

definition st0 :: "unit state" where
  "st0 = \<lparr>handler_stack = None, world = (), calls = [], logged = []\<rparr>"

definition with_stack :: "pydict list \<Rightarrow> unit state" where
  "with_stack s = \<lparr>handler_stack = Some s, world = (), calls = [], logged = []\<rparr>"

definition no_marks :: marks where
  "no_marks = \<lparr>func_attrs = (\<lambda>f. []), handler_to_event = []\<rparr>"

definition no_members :: "pyval \<Rightarrow> (string \<times> pyval) list" where
  "no_members obj = []"

text \<open>
  The functions 0 and 1 both marked for \<^verbatim>\<open>'key'\<close> with the decorator of the given module.
\<close>

definition key_marks :: "impl \<Rightarrow> marks" where
  "key_marks impl =
     snd (on_event impl (PStr ''key'') 1 (snd (on_event impl (PStr ''key'') 0 no_marks)))"

text \<open>
  The function 2 marked for \<^verbatim>\<open>'click'\<close> besides.
\<close>

definition key_click_marks :: "impl \<Rightarrow> marks" where
  "key_click_marks impl = snd (on_event impl (PStr ''click'') 2 (key_marks impl))"

text \<open>
  An instance of a subclass of \<^verbatim>\<open>Event\<close> whose class attribute \<^verbatim>\<open>type\<close> is \<^verbatim>\<open>'key'\<close>, as
  \<^verbatim>\<open>KeyEvent(key='a')\<close> in the \<^verbatim>\<open>_test\<close> functions; its \<^verbatim>\<open>type\<close> is \<^verbatim>\<open>'key'\<close> in both
  modules.
\<close>

definition key_event :: pyval where
  "key_event = PEvent (PStr ''key'') [(PStr ''key'', PStr ''a'')]"

text \<open>
  Handler behaviours that leave the stack and the rest of the state alone: every handler
  declines (returns \<^verbatim>\<open>None\<close>); every handler claims the event (returns \<^verbatim>\<open>True\<close>); the
  function 1 claims it and the others decline; the function 1 raises \<^verbatim>\<open>SystemExit\<close> (as
  \<^verbatim>\<open>sys.exit()\<close> does), respectively a \<^verbatim>\<open>ValueError\<close>, and the others decline.
\<close>

definition beh_decline :: "unit behaviour" where
  "beh_decline h e s = (Returns PNone, s)"



definition beh_exit :: "unit behaviour" where
  "beh_exit h e s = (if h = PFunc 1 then Raises SystemExit else Returns PNone, s)"

definition beh_fail :: "unit behaviour" where
  "beh_fail h e s = (if h = PFunc 1 then Raises (OtherException ''ValueError'') else Returns PNone, s)"

text \<open>
  A handler that changes the stack: the function 1 empties the list in place and then
  raises a \<^verbatim>\<open>ValueError\<close>; the others decline.
\<close>

definition beh_clear_and_fail :: "unit behaviour" where
  "beh_clear_and_fail h e s =
     (if h = PFunc 1 then (Raises (OtherException ''ValueError''), [], snd s)
      else (Returns PNone, s))"

text \<open>
  The objects of the modules' \<^verbatim>\<open>_test\<close> functions: the functions \<^verbatim>\<open>handle_key\<close> (0, not
  marked) and \<^verbatim>\<open>handle_click\<close> (1, marked for \<^verbatim>\<open>'click'\<close>), the methods
  \<^verbatim>\<open>Handler.handle_key\<close> (2, marked for \<^verbatim>\<open>'key'\<close>) and \<^verbatim>\<open>Handler.handle_click\<close> (3, marked
  for \<^verbatim>\<open>'click'\<close>, returns \<^verbatim>\<open>True\<close>), and the instance \<^verbatim>\<open>Handler()\<close> (0) with the members
  that \<^verbatim>\<open>inspect.getmembers\<close> lists by name.
\<close>

definition test_marks :: "impl \<Rightarrow> marks" where
  "test_marks impl =
     snd (on_event impl (PStr ''click'') 3
       (snd (on_event impl (PStr ''key'') 2
         (snd (on_event impl (PStr ''click'') 1 no_marks)))))"

definition test_members :: "pyval \<Rightarrow> (string \<times> pyval) list" where
  "test_members obj =
     (if obj = PInst 0
      then [(''__doc__'', PNone), (''handle_click'', PMethod 0 3), (''handle_key'', PMethod 0 2)]
      else [])"

definition test_beh :: "unit behaviour" where
  "test_beh h e s = (if h = PMethod 0 3 then Returns (PBool True) else Returns PNone, s)"

definition test_key_event :: "impl \<Rightarrow> pyval" where
  \<comment> \<open>\<^verbatim>\<open>KeyEvent(key='a')\<close>\<close>
  "test_key_event impl = Event_init impl (PStr ''key'') [(''key'', PStr ''a'')]"

definition test_click_event :: "impl \<Rightarrow> pyval" where
  \<comment> \<open>\<^verbatim>\<open>Event(type='click', pos=(23, 42))\<close>\<close>
  "test_click_event impl =
     Event_init impl PNone [(''type'', PStr ''click''), (''pos'', PTuple [PInt 23, PInt 42])]"

definition test_pushed :: "impl \<Rightarrow> unit state" where
  \<comment> \<open>\<^verbatim>\<open>push_handlers(handle_click, key=handle_key); push_handlers(Handler())\<close>\<close>
  "test_pushed impl =
     snd (push_handlers impl (test_marks impl) test_members [PInst 0] []
       (snd (push_handlers impl (test_marks impl) test_members [PFunc 1] [(''key'', PFunc 0)] st0)))"

text \<open>
  A positional argument on which \<^verbatim>\<open>push_handlers\<close> of \<^verbatim>\<open>events.py\<close> raises after it has
  appended the layer: an event whose item \<^verbatim>\<open>_handler_for\<close> holds an event without a type,
  which is unhashable and so cannot become a key of the layer.
\<close>

definition unhashable_mark :: pyval where
  "unhashable_mark = PEvent PNone [(PStr ''_handler_for'', PEvent PNone [(PStr ''pos'', PInt 1)])]"

section \<open>Basic facts\<close>

lemma py_eq_refl [simp]: "py_eq a a"
  by (simp add: py_eq_def)

lemma py_eq_sym: "py_eq a b = py_eq b a"
  by (auto simp: py_eq_def)

lemma py_eq_trans: "py_eq a b \<Longrightarrow> py_eq b c \<Longrightarrow> py_eq a c"
  by (simp add: py_eq_def)

lemma dict_lookup_store:
  "dict_lookup (dict_store d k v) k' = (if py_eq k k' then Some v else dict_lookup d k')"
  by (induction d) (auto simp: py_eq_def)

lemma layers_update [simp]: "layers (st\<lparr>handler_stack := Some s\<rparr>) = s"
  by (simp add: layers_def)

section \<open>\<^verbatim>\<open>pop_handlers\<close> and \<^verbatim>\<open>push_handlers\<close> as a stack\<close>

text \<open>
  Claim C5. \<^verbatim>\<open>pop_handlers\<close> on a dispatcher whose stack is empty, whether the attribute
  was never set or holds the empty list, raises \<^verbatim>\<open>IndexError\<close> to the caller and leaves
  the dispatcher as it was; on a stack that ends in the layer \<open>lyr\<close> it returns \<open>lyr\<close> and
  leaves the layers below it.
\<close>

theorem pop_handlers_empty_or_top:
  "(handler_stack st = None \<or> handler_stack st = Some [] \<longrightarrow>
      pop_handlers st = (Inl IndexError, st)) \<and>
   (handler_stack st = Some (below @ [lyr]) \<longrightarrow>
      pop_handlers st = (Inr lyr, st\<lparr>handler_stack := Some below\<rparr>))"
  by (auto simp: pop_handlers_def layers_def)

theorem pop_handlers_empty_or_top_witness:
  "pop_handlers st0 = (Inl IndexError, st0) \<and>
   pop_handlers (with_stack ([[(PStr ''key'', PFunc 0)]] @ [[(PStr ''click'', PFunc 1)]]))
     = (Inr [(PStr ''click'', PFunc 1)], with_stack [[(PStr ''key'', PFunc 0)]])"
  using pop_handlers_empty_or_top [of st0]
    pop_handlers_empty_or_top [of "with_stack ([[(PStr ''key'', PFunc 0)]] @ [[(PStr ''click'', PFunc 1)]])"
      "[[(PStr ''key'', PFunc 0)]]" "[(PStr ''click'', PFunc 1)]"]
  by (simp add: st0_def with_stack_def)

lemma push_handlers_stack:
  "\<exists>lyr. snd (push_handlers impl m gm args kwargs st)
           = st\<lparr>handler_stack := Some (layers st @ [lyr])\<rparr>"
  by (auto simp: push_handlers_def split: prod.splits option.splits)

text \<open>
  Claim C9. Whatever the arguments, and whether or not \<^verbatim>\<open>push_handlers\<close> raises while it
  fills the layer, it leaves the stack one layer longer at the tail, and \<^verbatim>\<open>pop_handlers\<close>
  called next returns exactly that layer and leaves the layers that were there before
  the push; nothing else of the state changes. (On a dispatcher whose attribute was
  never set the attribute then holds the empty list.)
\<close>

theorem push_then_pop_restores:
  "\<exists>lyr. layers (snd (push_handlers impl m gm args kwargs st)) = layers st @ [lyr] \<and>
     pop_handlers (snd (push_handlers impl m gm args kwargs st))
       = (Inr lyr, st\<lparr>handler_stack := Some (layers st)\<rparr>) \<and>
     layers (snd (pop_handlers (snd (push_handlers impl m gm args kwargs st)))) = layers st"
proof -
  obtain lyr where t: "snd (push_handlers impl m gm args kwargs st)
      = st\<lparr>handler_stack := Some (layers st @ [lyr])\<rparr>"
    using push_handlers_stack by blast
  show ?thesis
    by (rule exI [of _ lyr]) (simp add: t pop_handlers_def)
qed

lemma push_handlers_raises:
  "push_handlers Events no_marks no_members [unhashable_mark] [(''key'', PFunc 0)] st0
     = (Inl TypeError, st0\<lparr>handler_stack := Some [[]]\<rparr>)"
  by (simp add: push_handlers_def unhashable_mark_def members_of_def mark_of_def
      dict_setitem_def layers_def st0_def py_eq_def)

theorem push_then_pop_restores_witness:
  "\<exists>lyr.
     layers (snd (push_handlers Events no_marks no_members [unhashable_mark] [(''key'', PFunc 0)] st0))
       = layers st0 @ [lyr] \<and>
     pop_handlers
       (snd (push_handlers Events no_marks no_members [unhashable_mark] [(''key'', PFunc 0)] st0))
       = (Inr lyr, st0\<lparr>handler_stack := Some (layers st0)\<rparr>) \<and>
     layers (snd (pop_handlers
       (snd (push_handlers Events no_marks no_members [unhashable_mark] [(''key'', PFunc 0)] st0))))
       = layers st0"
  using push_then_pop_restores [of Events no_marks no_members "[unhashable_mark]"
      "[(''key'', PFunc 0)]" st0]
  by simp

section \<open>Event fields\<close>

lemma py_eq_PStr [simp]: "py_eq (PStr a) (PStr b) = (a = b)"
  by (simp add: py_eq_def)

lemma py_eq_PFunc [simp]: "py_eq (PFunc a) (PFunc b) = (a = b)"
  by (simp add: py_eq_def)

lemma dict_lookup_foldl_store:
  "dict_lookup (foldl (\<lambda>d (k, v). dict_store d (PStr k) v) d0 kws) (PStr n)
     = (case map_of (rev kws) n of Some v \<Rightarrow> Some v | None \<Rightarrow> dict_lookup d0 (PStr n))"
  by (induction kws arbitrary: d0) (auto simp: dict_lookup_store split: option.splits)

lemma map_of_rev_distinct:
  "distinct (map fst kws) \<Longrightarrow> (k, v) \<in> set kws \<Longrightarrow> map_of (rev kws) k = Some v"
  by (intro map_of_is_SomeI) (simp_all add: rev_map [symmetric])

lemma Event_init_lookup:
  assumes "distinct (map fst kwargs)" "(n, v) \<in> set kwargs"
  shows "\<exists>d. Event_init impl c kwargs = PEvent c d \<and> dict_lookup d (PStr n) = Some v"
  using assms by (simp add: Event_init_def dict_lookup_foldl_store map_of_rev_distinct)

text \<open>
  In \<^verbatim>\<open>events.py\<close> every keyword given to the constructor, \<^verbatim>\<open>type\<close> included, reads back
  the same by item and by attribute, unless the class has a data descriptor of that name.
\<close>

lemma events_fields_readable:
  assumes "distinct (map fst kwargs)" "(n, v) \<in> set kwargs"
    and "Event_init Events c kwargs = PEvent c d"
    and "n = ''type'' \<or> (\<forall>w. ns n \<noteq> Some (True, w))"
  shows "Event_getitem d n = Inr v \<and> Event_getattr Events ns c d n = Inr v"
proof -
  have l: "dict_lookup d (PStr n) = Some v"
    using Event_init_lookup [OF assms(1,2), of Events c] assms(3) by auto
  show ?thesis using l assms(4)
    by (auto simp: Event_getitem_def Event_getattr_def dict_getitem_def Let_def
        split: option.splits bool.splits)
qed

text \<open>
  Claim C2, at the input where \<^verbatim>\<open>uevents.py\<close> departs from it:
  \<^verbatim>\<open>e = Event(type='click')\<close>. The item \<^verbatim>\<open>e['type']\<close> is \<^verbatim>\<open>'click'\<close>, the value given, but
  \<^verbatim>\<open>e.type\<close> is \<^verbatim>\<open>None\<close>: the class attribute \<^verbatim>\<open>type = None\<close> is found by the normal
  lookup, so \<^verbatim>\<open>__getattr__\<close> is never called, and \<^verbatim>\<open>dispatch\<close> routes the event by
  \<^verbatim>\<open>None\<close>. \<^verbatim>\<open>events.py\<close> returns \<^verbatim>\<open>'click'\<close> for the same construction.
\<close>

theorem uevents_type_attribute_shadowed:
  "Event_init UEvents PNone [(''type'', PStr ''click'')]
     = PEvent PNone [(PStr ''type'', PStr ''click'')] \<and>
   Event_getitem [(PStr ''type'', PStr ''click'')] ''type'' = Inr (PStr ''click'') \<and>
   Event_getattr UEvents ns PNone [(PStr ''type'', PStr ''click'')] ''type'' = Inr PNone \<and>
   type_attr UEvents (PEvent PNone [(PStr ''type'', PStr ''click'')]) = PNone \<and>
   Event_getattr Events ns PNone [(PStr ''type'', PStr ''click'')] ''type''
     = Inr (PStr ''click'')"
  by (simp add: Event_init_def Event_getitem_def Event_getattr_def dict_getitem_def Let_def)

section \<open>Marking a handler\<close>

lemma on_event_fst [simp]: "fst (on_event impl event f m) = PFunc f"
  by (cases impl) (simp_all add: on_event_def)

lemma mark_of_on_event:
  "mark_of impl (snd (on_event impl event f m)) (PFunc g)
     = (if g = f then Inr (mark_target impl event) else mark_of impl m (PFunc g))"
  by (cases impl) (simp_all add: on_event_def mark_of_def dict_get_def dict_lookup_store)

text \<open>
  Claim C7 as stated fails in \<^verbatim>\<open>events.py\<close>: after \<^verbatim>\<open>on_event('key')(f)\<close> on a function
  without attributes, \<open>f\<close> has the new attribute \<^verbatim>\<open>_handler_for\<close>, and no side table
  holds anything.
\<close>

theorem on_event_sets_attribute_counterexample:
  "func_attrs (snd (on_event Events (PStr ''key'') 0 no_marks)) 0
     = [(PStr ''_handler_for'', PStr ''key'')] \<and>
   func_attrs no_marks 0 = [] \<and>
   handler_to_event (snd (on_event Events (PStr ''key'') 0 no_marks)) = []"
  by (simp add: on_event_def no_marks_def mark_target_def is_event_def)

text \<open>
  Claim C7, amended. In both modules \<^verbatim>\<open>on_event(event)(f)\<close> returns \<open>f\<close> itself, the mark
  that \<^verbatim>\<open>push_handlers\<close> reads back for \<open>f\<close> is the target (the type tag of an event or
  event class, else the value given), marking \<open>f\<close> again overwrites the earlier target,
  and the mark of every other function is untouched. \<^verbatim>\<open>uevents.py\<close> keeps the mark in the
  side table and leaves the attributes of \<open>f\<close> alone; \<^verbatim>\<open>events.py\<close> keeps it in the
  attribute \<^verbatim>\<open>_handler_for\<close> of \<open>f\<close>, the only thing it changes.
\<close>

theorem on_event_records_binding:
  "fst (on_event impl event f m) = PFunc f \<and>
   mark_of impl (snd (on_event impl event f m)) (PFunc f) = Inr (mark_target impl event) \<and>
   mark_of impl (snd (on_event impl event' f (snd (on_event impl event f m)))) (PFunc f)
     = Inr (mark_target impl event') \<and>
   (\<forall>g. g \<noteq> f \<longrightarrow>
      mark_of impl (snd (on_event impl event f m)) (PFunc g) = mark_of impl m (PFunc g)) \<and>
   (impl = UEvents \<longrightarrow> func_attrs (snd (on_event impl event f m)) = func_attrs m) \<and>
   (impl = Events \<longrightarrow>
      handler_to_event (snd (on_event impl event f m)) = handler_to_event m \<and>
      func_attrs (snd (on_event impl event f m))
        = (func_attrs m)(f := dict_store (func_attrs m f) (PStr ''_handler_for'')
                                  (mark_target impl event)))"
  by (simp add: mark_of_on_event) (simp add: on_event_def)

theorem on_event_records_binding_witness:
  "fst (on_event UEvents (PStr ''key'') 0 no_marks) = PFunc 0 \<and>
   func_attrs (snd (on_event UEvents (PStr ''key'') 0 no_marks)) = func_attrs no_marks \<and>
   handler_to_event (snd (on_event Events (PStr ''key'') 0 no_marks))
     = handler_to_event no_marks \<and>
   mark_of Events
     (snd (on_event Events (PStr ''click'') 0 (snd (on_event Events (PStr ''key'') 0 no_marks))))
     (PFunc 0) = Inr (PStr ''click'') \<and>
   mark_of UEvents (snd (on_event UEvents (PStr ''key'') 0 no_marks)) (PFunc 1) = Inr PNone"
  using on_event_records_binding [of UEvents "PStr ''key''" 0 no_marks "PStr ''click''"]
    on_event_records_binding [of Events "PStr ''key''" 0 no_marks "PStr ''click''"]
  by (simp add: mark_target_def is_event_def mark_of_def no_marks_def dict_get_def)

section \<open>Filling a layer\<close>

lemma register_kwargs_eq:
  "register_kwargs impl kwargs layer
     = (None, foldl (\<lambda>d (k, v). dict_store d (PStr k) v) layer kwargs)"
  by (induction kwargs arbitrary: layer) (auto simp: dict_setitem_def is_event_def)

lemma register_members_append:
  "register_members impl m (ms @ ms') layer
     = (case register_members impl m ms layer of
          (Some x, layer') \<Rightarrow> (Some x, layer')
        | (None, layer') \<Rightarrow> register_members impl m ms' layer')"
proof (induction ms arbitrary: layer)
  case Nil
  show ?case by simp
next
  case (Cons a ms)
  obtain n mth where a: "a = (n, mth)" by (cases a)
  show ?case
    unfolding a by (simp add: Cons.IH split: sum.split)
qed

lemma register_args_append:
  "register_args impl m gm (args @ args') layer
     = (case register_args impl m gm args layer of
          (Some x, layer') \<Rightarrow> (Some x, layer')
        | (None, layer') \<Rightarrow> register_args impl m gm args' layer')"
  by (induction args arbitrary: layer) (auto split: sum.splits prod.splits option.splits)

lemma register_members_keeps:
  assumes "register_members impl m ms layer = (None, layer')"
    and "\<forall>mem\<in>set ms. \<not> registers_for impl m k mem"
  shows "dict_lookup layer' k = dict_lookup layer k"
  using assms
proof (induction ms arbitrary: layer)
  case Nil
  then show ?case by simp
next
  case (Cons a ms)
  obtain n mth where a: "a = (n, mth)" by (cases a)
  show ?case
    using Cons.prems Cons.IH unfolding a
    by (auto simp: registers_for_def dict_setitem_def dict_lookup_store
          split: if_splits sum.splits)
qed

lemma register_members_sets:
  assumes "register_members impl m [(n, mth)] layer = (None, layer')"
    and "registers_for impl m k (n, mth)"
  shows "dict_lookup layer' k = Some mth"
  using assms
  by (auto simp: registers_for_def dict_setitem_def dict_lookup_store
        split: if_splits sum.splits)

lemma register_args_keeps:
  assumes "register_args impl m gm args layer = (None, layer')"
    and "\<forall>obj\<in>set args. case members_of impl m gm obj of Inl x \<Rightarrow> True
           | Inr ms \<Rightarrow> \<forall>mem\<in>set ms. \<not> registers_for impl m k mem"
  shows "dict_lookup layer' k = dict_lookup layer k"
  using assms
proof (induction args arbitrary: layer)
  case Nil
  then show ?case by simp
next
  case (Cons obj args)
  obtain ms where ms: "members_of impl m gm obj = Inr ms"
    using Cons.prems(1) by (cases "members_of impl m gm obj") auto
  obtain l1 where 1: "register_members impl m ms layer = (None, l1)"
    and 2: "register_args impl m gm args l1 = (None, layer')"
    using Cons.prems(1) ms by (auto split: prod.splits option.splits)
  have "dict_lookup l1 k = dict_lookup layer k"
    using register_members_keeps [OF 1] Cons.prems(2) ms by simp
  moreover have "dict_lookup layer' k = dict_lookup l1 k"
    using Cons.IH [OF 2] Cons.prems(2) by simp
  ultimately show ?case by simp
qed

lemma foldl_store_keeps:
  assumes "\<forall>name\<in>fst ` set kwargs. \<not> py_eq (PStr name) k"
  shows "dict_lookup (foldl (\<lambda>d (n, v). dict_store d (PStr n) v) layer kwargs) k
           = dict_lookup layer k"
  using assms
  by (induction kwargs arbitrary: layer) (auto simp: dict_lookup_store)

lemma register_args_last_registration:
  assumes r: "register_args impl m gm (pre @ [obj] @ post) layer = (None, layer')"
    and ms: "members_of impl m gm obj = Inr (ms @ [(n, mth)] @ ms')"
    and reg: "registers_for impl m k (n, mth)"
    and later: "\<forall>mem\<in>set ms'. \<not> registers_for impl m k mem"
    and post: "\<forall>obj\<in>set post. case members_of impl m gm obj of Inl x \<Rightarrow> True
           | Inr ms \<Rightarrow> \<forall>mem\<in>set ms. \<not> registers_for impl m k mem"
  shows "dict_lookup layer' k = Some mth"
proof -
  obtain l1 where "register_args impl m gm pre layer = (None, l1)"
    and 1: "register_args impl m gm ([obj] @ post) l1 = (None, layer')"
    using r unfolding register_args_append
    by (auto split: prod.splits option.splits)
  obtain l2 where 2: "register_members impl m (ms @ [(n, mth)] @ ms') l1 = (None, l2)"
    and 3: "register_args impl m gm post l2 = (None, layer')"
    using 1 ms by (auto split: prod.splits option.splits)
  obtain l3 where "register_members impl m ms l1 = (None, l3)"
    and 4: "register_members impl m ([(n, mth)] @ ms') l3 = (None, l2)"
    using 2 unfolding register_members_append [of impl m ms]
    by (auto split: prod.splits option.splits)
  obtain l4 where 5: "register_members impl m [(n, mth)] l3 = (None, l4)"
    and 6: "register_members impl m ms' l4 = (None, l2)"
    using 4 unfolding register_members_append [of impl m "[(n, mth)]"]
    by (auto split: prod.splits option.splits)
  have "dict_lookup l4 k = Some mth"
    by (rule register_members_sets [OF 5 reg])
  then have "dict_lookup l2 k = Some mth"
    using register_members_keeps [OF 6 later] by simp
  then show ?thesis
    using register_args_keeps [OF 3 post] by simp
qed

text \<open>
  Claim C8. Within one \<^verbatim>\<open>push_handlers\<close> call that returns, the new layer holds for
  every key the handler written last for it. A keyword binding \<open>name = handler\<close> is what
  the layer holds for \<open>name\<close>, whatever the positional arguments registered for that
  tag. Among the registrations made from the positional arguments the last one for a key
  wins: if a member \<open>(n, mth)\<close> of some positional argument \<open>obj\<close> is registered for the
  key \<open>k\<close>, and no member after it, no member of a later positional argument and no keyword
  is registered for \<open>k\<close>, the layer holds \<open>mth\<close> for \<open>k\<close>, whatever the members before it
  and the earlier positional arguments registered for \<open>k\<close>.
\<close>

theorem push_handlers_last_write_wins:
  "(fst (push_handlers impl m gm args kwargs st) = Inr () \<and> distinct (map fst kwargs)
      \<and> (name, handler) \<in> set kwargs \<longrightarrow>
    dict_lookup (last (layers (snd (push_handlers impl m gm args kwargs st)))) (PStr name)
      = Some handler) \<and>
   (fst (push_handlers impl m gm (pre @ [obj] @ post) kwargs st) = Inr ()
      \<and> members_of impl m gm obj = Inr (ms @ [(n, mth)] @ ms')
      \<and> registers_for impl m k (n, mth)
      \<and> (\<forall>mem\<in>set ms'. \<not> registers_for impl m k mem)
      \<and> (\<forall>later\<in>set post. case members_of impl m gm later of Inl x \<Rightarrow> True
           | Inr members \<Rightarrow> \<forall>mem\<in>set members. \<not> registers_for impl m k mem)
      \<and> (\<forall>name\<in>fst ` set kwargs. \<not> py_eq (PStr name) k) \<longrightarrow>
    dict_lookup (last (layers (snd (push_handlers impl m gm (pre @ [obj] @ post) kwargs st)))) k
      = Some mth)"
proof (intro conjI impI)
  assume a: "fst (push_handlers impl m gm args kwargs st) = Inr () \<and> distinct (map fst kwargs)
      \<and> (name, handler) \<in> set kwargs"
  then show "dict_lookup (last (layers (snd (push_handlers impl m gm args kwargs st)))) (PStr name)
      = Some handler"
    by (auto simp: push_handlers_def register_kwargs_eq dict_lookup_foldl_store map_of_rev_distinct
        split: prod.splits option.splits)
next
  assume a: "fst (push_handlers impl m gm (pre @ [obj] @ post) kwargs st) = Inr ()
      \<and> members_of impl m gm obj = Inr (ms @ [(n, mth)] @ ms')
      \<and> registers_for impl m k (n, mth)
      \<and> (\<forall>mem\<in>set ms'. \<not> registers_for impl m k mem)
      \<and> (\<forall>later\<in>set post. case members_of impl m gm later of Inl x \<Rightarrow> True
           | Inr members \<Rightarrow> \<forall>mem\<in>set members. \<not> registers_for impl m k mem)
      \<and> (\<forall>name\<in>fst ` set kwargs. \<not> py_eq (PStr name) k)"
  obtain r layer where ra: "register_args impl m gm (pre @ [obj] @ post) [] = (r, layer)"
    by (cases "register_args impl m gm (pre @ [obj] @ post) []")
  have "r = None"
    using a ra by (cases r) (auto simp: push_handlers_def register_kwargs_eq)
  then have "dict_lookup layer k = Some mth"
    using register_args_last_registration [of impl m gm pre obj post "[]" layer ms n mth ms' k] a ra
    by simp
  moreover have "dict_lookup (foldl (\<lambda>d (n, v). dict_store d (PStr n) v) layer kwargs) k
      = dict_lookup layer k"
    using a by (intro foldl_store_keeps) simp
  moreover have "snd (push_handlers impl m gm (pre @ [obj] @ post) kwargs st)
      = st\<lparr>handler_stack := Some (layers st
            @ [foldl (\<lambda>d (n, v). dict_store d (PStr n) v) layer kwargs])\<rparr>"
    unfolding push_handlers_def ra \<open>r = None\<close> register_kwargs_eq by simp
  ultimately show "dict_lookup
      (last (layers (snd (push_handlers impl m gm (pre @ [obj] @ post) kwargs st)))) k = Some mth"
    by simp
qed

theorem push_handlers_last_write_wins_witness:
  "dict_lookup
     (last (layers (snd (push_handlers Events (key_marks Events) no_members [PFunc 0]
                           [(''key'', PFunc 2)] st0))))
     (PStr ''key'') = Some (PFunc 2) \<and>
   dict_lookup
     (last (layers (snd (push_handlers UEvents (key_click_marks UEvents) no_members
                           ([PFunc 0] @ [PFunc 1] @ [PFunc 2]) [(''move'', PFunc 3)] st0))))
     (PStr ''key'') = Some (PFunc 1)"
proof -
  have e: "fst (push_handlers Events (key_marks Events) no_members [PFunc 0]
                  [(''key'', PFunc 2)] st0) = Inr ()"
    by (simp add: push_handlers_def key_marks_def on_event_def no_marks_def mark_target_def
        is_event_def members_of_def mark_of_def dict_setitem_def)
  have u: "fst (push_handlers UEvents (key_click_marks UEvents) no_members
                  ([PFunc 0] @ [PFunc 1] @ [PFunc 2]) [(''move'', PFunc 3)] st0) = Inr ()"
    by (simp add: push_handlers_def key_click_marks_def key_marks_def on_event_def no_marks_def
        mark_target_def is_event_def members_of_def mark_of_def dict_setitem_def
        dict_contains_def dict_get_def)
  have m1: "members_of UEvents (key_click_marks UEvents) no_members (PFunc 1)
      = Inr ([] @ [([], PFunc 1)] @ [])"
    by (simp add: key_click_marks_def key_marks_def on_event_def no_marks_def
        mark_target_def is_event_def members_of_def dict_contains_def)
  have m2: "members_of UEvents (key_click_marks UEvents) no_members (PFunc 2)
      = Inr [([], PFunc 2)]"
    by (simp add: key_click_marks_def key_marks_def on_event_def no_marks_def
        mark_target_def is_event_def members_of_def dict_contains_def)
  have r1: "registers_for UEvents (key_click_marks UEvents) (PStr ''key'') ([], PFunc 1)"
    by (simp add: registers_for_def key_click_marks_def key_marks_def on_event_def no_marks_def
        mark_target_def is_event_def mark_of_def dict_get_def)
  have r2: "\<not> registers_for UEvents (key_click_marks UEvents) (PStr ''key'') ([], PFunc 2)"
    by (simp add: registers_for_def key_click_marks_def key_marks_def on_event_def no_marks_def
        mark_target_def is_event_def mark_of_def dict_get_def)
  show ?thesis
    using push_handlers_last_write_wins [of Events "key_marks Events" no_members "[PFunc 0]"
        "[(''key'', PFunc 2)]" st0 "''key''" "PFunc 2"]
      push_handlers_last_write_wins [of UEvents "key_click_marks UEvents" no_members "[PFunc 0]"
        "[(''move'', PFunc 3)]" st0 _ _ "[PFunc 0]" "PFunc 1" "[PFunc 2]" "[]" "[]" "PFunc 1" "[]"
        "PStr ''key''"]
      e u m1 m2 r1 r2
    by simp
qed

text \<open>
  For instance \<^verbatim>\<open>push_handlers(f0, f1, f2)\<close>, with \<^verbatim>\<open>f0\<close> and \<^verbatim>\<open>f1\<close> marked for \<^verbatim>\<open>'key'\<close> and
  \<^verbatim>\<open>f2\<close> for \<^verbatim>\<open>'click'\<close>, leaves \<^verbatim>\<open>f1\<close> under \<^verbatim>\<open>'key'\<close>.
\<close>

lemma three_sources_layer:
  "last (layers (snd (push_handlers UEvents (key_click_marks UEvents) no_members
                           [PFunc 0, PFunc 1, PFunc 2] [] st0)))
     = [(PStr ''key'', PFunc 1), (PStr ''click'', PFunc 2)]"
    by (simp add: push_handlers_def key_click_marks_def key_marks_def on_event_def no_marks_def
        mark_target_def is_event_def members_of_def mark_of_def dict_setitem_def
        dict_contains_def dict_get_def)

section \<open>Facts about the walk down the stack\<close>

lemma layers_simps [simp]:
  "layers (st\<lparr>world := w\<rparr>) = layers st"
  "layers (st\<lparr>calls := c\<rparr>) = layers st"
  "layers (st\<lparr>logged := l\<rparr>) = layers st"
  by (simp_all add: layers_def)

lemma try_handler_cases:
  assumes "invoke beh h e (layers st, world st) = (r, s', w')"
  shows "try_handler impl beh h e st =
     (case r of
        Returns v \<Rightarrow> (if truthy v then Break else Continue,
                      st\<lparr>handler_stack := Some s', world := w', calls := calls st @ [(h, e)]\<rparr>)
      | Raises x \<Rightarrow>
          if catches impl x
          then (Continue, st\<lparr>handler_stack := Some s', world := w',
                            calls := calls st @ [(h, e)], logged := logged st @ [(h, x)]\<rparr>)
          else (Propagate x,
                st\<lparr>handler_stack := Some s', world := w', calls := calls st @ [(h, e)]\<rparr>))"
  using assms by (simp add: try_handler_def Let_def split: outcome.splits)

lemma try_handler_calls:
  "calls (snd (try_handler impl beh h e st)) = calls st @ [(h, e)]"
  by (cases "invoke beh h e (layers st, world st)")
     (simp add: try_handler_cases split: outcome.splits)



lemma invoke_layers:
  assumes "\<And>h e s w. fst (snd (beh h e (s, w))) = s"
  shows "fst (snd (invoke beh h e (s, w))) = s"
  using assms by (cases h) simp_all

lemma try_handler_layers:
  assumes "\<And>h e s w. fst (snd (beh h e (s, w))) = s"
  shows "layers (snd (try_handler impl beh h e st)) = layers st"
proof (cases "invoke beh h e (layers st, world st)")
  case (fields r s' w')
  have "s' = layers st"
    using invoke_layers [of beh h e "layers st" "world st"] assms fields by simp
  then show ?thesis
    by (simp add: try_handler_cases [OF fields] split: outcome.splits)
qed


lemma walk_rel:
  assumes refl: "\<And>st. R st st"
    and trans: "\<And>a b c. R a b \<Longrightarrow> R b c \<Longrightarrow> R a c"
    and step: "\<And>st h i. i < n \<Longrightarrow> i < length (layers st) \<Longrightarrow>
        dict_get (layers st ! i) (type_attr impl e) = Inr h \<Longrightarrow> truthy h \<Longrightarrow>
        R st (snd (try_handler impl beh h e st))"
  shows "R st (snd (walk impl beh e n st))"
  using step
proof (induction n arbitrary: st)
  case 0
  show ?case by (simp add: refl)
next
  case (Suc n)
  have ih: "R st' (snd (walk impl beh e n st'))" for st'
    by (rule Suc.IH) (rule Suc.prems, simp_all)
  show ?case
  proof (cases "n < length (layers st)")
    case False
    then show ?thesis by (simp add: refl)
  next
    case True
    show ?thesis
    proof (cases "dict_get (layers st ! n) (type_attr impl e)")
      case (Inl x)
      then show ?thesis using True by (simp add: refl)
    next
      case (Inr h)
      show ?thesis
      proof (cases "truthy h")
        case False
        then show ?thesis using True Inr ih [of st] by simp
      next
        case th: True
        obtain sg st' where t: "try_handler impl beh h e st = (sg, st')"
          by (cases "try_handler impl beh h e st")
        have r: "R st st'"
          using Suc.prems [of n st h] True Inr th t by simp
        show ?thesis
        proof (cases sg)
          case Continue
          then show ?thesis using True Inr th t trans [OF r ih [of st']] by simp
        next
          case Break
          then show ?thesis using True Inr th t r by simp
        next
          case (Propagate x)
          then show ?thesis using True Inr th t r by simp
        qed
      qed
    qed
  qed
qed



lemma walk_layers:
  assumes "\<And>h e s w. fst (snd (beh h e (s, w))) = s"
  shows "layers (snd (walk impl beh e n st)) = layers st"
  by (rule walk_rel [where R = "\<lambda>a b. layers b = layers a"])
     (simp_all add: try_handler_layers [OF assms])

lemma dict_get_truthy:
  "dict_get d k = Inr h \<Longrightarrow> truthy h \<Longrightarrow> dict_lookup d k = Some h"
  by (auto simp: dict_get_def split: if_splits option.splits)

lemma walk_new_calls:
  assumes nm: "\<And>h e s w. fst (snd (beh h e (s, w))) = s"
  shows "layers (snd (walk impl beh e n st)) = layers st \<and>
     (\<exists>new. calls (snd (walk impl beh e n st)) = calls st @ new \<and>
        (\<forall>c\<in>set new. snd c = e \<and>
           (\<exists>L\<in>set (take n (layers st)). dict_lookup L (type_attr impl e) = Some (fst c))))"
proof (rule walk_rel [where R = "\<lambda>a b. layers b = layers a \<and>
     (\<exists>new. calls b = calls a @ new \<and>
        (\<forall>c\<in>set new. snd c = e \<and>
           (\<exists>L\<in>set (take n (layers a)). dict_lookup L (type_attr impl e) = Some (fst c))))"])
  fix st :: "'a state"
  show "layers st = layers st \<and>
     (\<exists>new. calls st = calls st @ new \<and>
        (\<forall>c\<in>set new. snd c = e \<and>
           (\<exists>L\<in>set (take n (layers st)). dict_lookup L (type_attr impl e) = Some (fst c))))"
    by simp
next
  fix a b c :: "'a state"
  assume "layers b = layers a \<and>
     (\<exists>new. calls b = calls a @ new \<and>
        (\<forall>c\<in>set new. snd c = e \<and>
           (\<exists>L\<in>set (take n (layers a)). dict_lookup L (type_attr impl e) = Some (fst c))))"
    and "layers c = layers b \<and>
     (\<exists>new. calls c = calls b @ new \<and>
        (\<forall>c\<in>set new. snd c = e \<and>
           (\<exists>L\<in>set (take n (layers b)). dict_lookup L (type_attr impl e) = Some (fst c))))"
  then show "layers c = layers a \<and>
     (\<exists>new. calls c = calls a @ new \<and>
        (\<forall>c\<in>set new. snd c = e \<and>
           (\<exists>L\<in>set (take n (layers a)). dict_lookup L (type_attr impl e) = Some (fst c))))"
    by (elim conjE exE) (rule conjI, simp, rule_tac x = "new @ newa" in exI, auto)
next
  fix st :: "'a state" and h i
  assume i: "i < n" "i < length (layers st)"
    and g: "dict_get (layers st ! i) (type_attr impl e) = Inr h" and t: "truthy h"
  have m: "layers st ! i \<in> set (take n (layers st))"
    using i by (metis in_set_conv_nth length_take min_less_iff_conj nth_take)
  show "layers (snd (try_handler impl beh h e st)) = layers st \<and>
     (\<exists>new. calls (snd (try_handler impl beh h e st)) = calls st @ new \<and>
        (\<forall>c\<in>set new. snd c = e \<and>
           (\<exists>L\<in>set (take n (layers st)). dict_lookup L (type_attr impl e) = Some (fst c))))"
    using m dict_get_truthy [OF g t]
    by (auto simp: try_handler_layers [OF nm] try_handler_calls)
qed


lemma walk_skip:
  assumes "hashable (type_attr impl e)" "k \<le> n" "n \<le> length (layers st)"
    and "\<And>i. k \<le> i \<Longrightarrow> i < n \<Longrightarrow> dict_lookup (layers st ! i) (type_attr impl e) = None"
  shows "walk impl beh e n st = walk impl beh e k st"
  using assms(2-)
proof (induction n)
  case 0
  then show ?case by simp
next
  case (Suc n)
  show ?case
  proof (cases "k = Suc n")
    case True
    then show ?thesis by simp
  next
    case False
    then have "dict_lookup (layers st ! n) (type_attr impl e) = None"
      using Suc.prems by simp
    moreover have "walk impl beh e n st = walk impl beh e k st"
      using Suc False by simp
    ultimately show ?thesis
      using Suc.prems assms(1) by (simp add: dict_get_def)
  qed
qed

lemma walk_skip_layers:
  assumes "hashable (type_attr impl e)" "layers st = lower @ upper @ rest"
    and "\<forall>L\<in>set upper. dict_lookup L (type_attr impl e) = None"
  shows "walk impl beh e (length lower + length upper) st = walk impl beh e (length lower) st"
proof (rule walk_skip [OF assms(1)])
  fix i assume "length lower \<le> i" "i < length lower + length upper"
  then have "i - length lower < length upper" "\<not> i < length lower"
    by simp_all
  then have "layers st ! i = upper ! (i - length lower)" "i - length lower < length upper"
    by (simp_all add: assms(2) nth_append)
  then show "dict_lookup (layers st ! i) (type_attr impl e) = None"
    using assms(3) by simp
qed (simp_all add: assms(2))

lemma walk_at:
  assumes "hashable (type_attr impl e)" "layers st = lower @ L # rest"
    and "dict_lookup L (type_attr impl e) = Some h" "truthy h"
  shows "walk impl beh e (Suc (length lower)) st =
     (case try_handler impl beh h e st of
        (Continue, st') \<Rightarrow> walk impl beh e (length lower) st'
      | (Break, st') \<Rightarrow> (None, st')
      | (Propagate x, st') \<Rightarrow> (Some x, st'))"
  using assms by (simp add: dict_get_def)

lemma dispatch_single:
  assumes "handler_stack st = Some s" "isinstance_Event e"
  shows "dispatch impl beh [e] st =
     (case walk impl beh e (length s) st of
        (Some x, st') \<Rightarrow> (Inl x, st')
      | (None, st') \<Rightarrow> (Inr (), st'))"
  using assms by (simp add: dispatch_def layers_def split: prod.splits option.splits)

declare walk.simps [simp del]

lemma walk_to_first_binding:
  assumes h: "hashable (type_attr impl e)"
    and l: "layers st = older @ [L] @ newer @ rest"
    and b: "dict_lookup L (type_attr impl e) = Some h" "truthy h"
    and n: "\<forall>N\<in>set newer. dict_lookup N (type_attr impl e) = None"
  shows "walk impl beh e (length (older @ [L] @ newer)) st =
     (case try_handler impl beh h e st of
        (Continue, st') \<Rightarrow> walk impl beh e (length older) st'
      | (Break, st') \<Rightarrow> (None, st')
      | (Propagate x, st') \<Rightarrow> (Some x, st'))"
proof -
  have "walk impl beh e (length (older @ [L]) + length newer) st
      = walk impl beh e (length (older @ [L])) st"
    by (rule walk_skip_layers [OF h _ n]) (simp add: l)
  then have "walk impl beh e (length (older @ [L] @ newer)) st
      = walk impl beh e (Suc (length older)) st"
    by (simp add: ac_simps)
  also have "\<dots> = (case try_handler impl beh h e st of
        (Continue, st') \<Rightarrow> walk impl beh e (length older) st'
      | (Break, st') \<Rightarrow> (None, st')
      | (Propagate x, st') \<Rightarrow> (Some x, st'))"
    by (rule walk_at [OF h _ b]) (simp add: l)
  finally show ?thesis .
qed





lemma dispatch_single_calls:
  assumes "handler_stack st = Some s" "isinstance_Event e"
  shows "calls (snd (dispatch impl beh [e] st)) = calls (snd (walk impl beh e (length s) st))"
    and "logged (snd (dispatch impl beh [e] st)) = logged (snd (walk impl beh e (length s) st))"
    and "fst (dispatch impl beh [e] st) = Inl x \<longleftrightarrow> fst (walk impl beh e (length s) st) = Some x"
  unfolding dispatch_single [OF assms] by (auto split: prod.splits option.splits)

section \<open>Order of the walk, short circuit and propagation\<close>

text \<open>
  In the statements below a handler \<^emph>\<open>declines\<close> the event on the stack \<open>s\<close> when,
  whatever the rest of the program state is at the call, it returns a falsy value or
  raises an exception that the module's \<^verbatim>\<open>except\<close> clause catches, and leaves the stack
  \<open>s\<close> as it is.
\<close>




section \<open>Handlers that raise\<close>



text \<open>
  For instance, with three layers that bind \<^verbatim>\<open>'key'\<close> to the functions 0, 1 and 2 (oldest
  first), of which the function 1 raises a \<^verbatim>\<open>ValueError\<close> and the others return \<^verbatim>\<open>None\<close>,
  all three are called, newest first, and the exception is logged.
\<close>

lemma middle_layer_run:
  "dispatch UEvents beh_fail [key_event]
      (with_stack [[(PStr ''key'', PFunc 0)], [(PStr ''key'', PFunc 1)], [(PStr ''key'', PFunc 2)]])
     = (Inr (),
        \<lparr>handler_stack = Some [[(PStr ''key'', PFunc 0)], [(PStr ''key'', PFunc 1)], [(PStr ''key'', PFunc 2)]],
         world = (), calls = [(PFunc 2, key_event), (PFunc 1, key_event), (PFunc 0, key_event)],
         logged = [(PFunc 1, OtherException ''ValueError'')]\<rparr>)"
  by (simp add: dispatch_def with_stack_def key_event_def layers_def try_handler_def
      dict_get_def beh_fail_def walk.simps)

text \<open>
  The condition on the stack is needed: when the function 1, bound in the newest of two
  layers, empties the stack before it raises, the exception is caught and logged, but the
  walk finds no older layer any more and the function 0 is not called.
\<close>

lemma raising_handler_that_clears_stack:
  "dispatch Events beh_clear_and_fail [key_event]
      (with_stack [[(PStr ''key'', PFunc 0)], [(PStr ''key'', PFunc 1)]])
     = (Inr (),
        \<lparr>handler_stack = Some [], world = (), calls = [(PFunc 1, key_event)],
         logged = [(PFunc 1, OtherException ''ValueError'')]\<rparr>)"
  by (simp add: dispatch_def with_stack_def key_event_def layers_def try_handler_def
      dict_get_def beh_clear_and_fail_def walk.simps)


lemma events_SystemExit_contained:
  "dispatch Events beh_exit [key_event]
      (with_stack [[(PStr ''key'', PFunc 0)], [(PStr ''key'', PFunc 1)]])
     = (Inr (),
        \<lparr>handler_stack = Some [[(PStr ''key'', PFunc 0)], [(PStr ''key'', PFunc 1)]],
         world = (), calls = [(PFunc 1, key_event), (PFunc 0, key_event)],
         logged = [(PFunc 1, SystemExit)]\<rparr>)"
  by (simp add: dispatch_def with_stack_def key_event_def layers_def try_handler_def
      dict_get_def beh_exit_def walk.simps)

section \<open>How often a handler is called\<close>

text \<open>
  Claim C1 as stated fails when an older layer binds the same tag to the same handler
  and the handler declines: pushing \<^verbatim>\<open>key=h\<close> twice and dispatching one \<^verbatim>\<open>'key'\<close> event
  calls \<open>h\<close> twice.
\<close>

theorem same_handler_called_twice_counterexample:
  "calls (snd (dispatch Events beh_decline [key_event]
      (with_stack [[(PStr ''key'', PFunc 0)], [(PStr ''key'', PFunc 0)]])))
     = [(PFunc 0, key_event), (PFunc 0, key_event)]"
  by (simp add: dispatch_def with_stack_def key_event_def layers_def try_handler_def
      dict_get_def beh_decline_def walk.simps)

text \<open>
  Claim C1, amended. In a stack where the layer \<open>L\<close> binds the tag \<open>t\<close> to the handler
  \<open>h\<close>, no layer pushed after \<open>L\<close> binds \<open>t\<close>, no layer pushed before \<open>L\<close> binds \<open>t\<close>
  to \<open>h\<close> as well, and no handler changes the stack while it runs, dispatching one
  event of type \<open>t\<close> calls \<open>h\<close> exactly once, and first. The tag may be any string.
\<close>

theorem topmost_handler_called_once:
  assumes stack: "handler_stack st = Some (older @ [L] @ newer)"
    and ev: "isinstance_Event e" "type_attr impl e = PStr t"
    and L: "dict_lookup L (PStr t) = Some h" "truthy h"
    and newer: "\<forall>N\<in>set newer. dict_lookup N (PStr t) = None"
    and older: "\<forall>K\<in>set older. dict_lookup K (PStr t) \<noteq> Some h"
    and nm: "\<And>g e' s w. fst (snd (beh g e' (s, w))) = s"
  shows "\<exists>rest. calls (snd (dispatch impl beh [e] st)) = calls st @ (h, e) # rest \<and>
           (\<forall>c\<in>set rest. fst c \<noteq> h)"
proof -
  let ?s = "older @ [L] @ newer"
  have h: "hashable (type_attr impl e)" by (simp add: ev)
  have l: "layers st = ?s" by (simp add: layers_def stack)
  have w1: "walk impl beh e (length ?s) st =
     (case try_handler impl beh h e st of
        (Continue, st') \<Rightarrow> walk impl beh e (length older) st'
      | (Break, st') \<Rightarrow> (None, st')
      | (Propagate x, st') \<Rightarrow> (Some x, st'))"
    by (rule walk_to_first_binding [OF h, where rest = "[]"]) (use l L newer ev in auto)
  obtain sg st' where t: "try_handler impl beh h e st = (sg, st')"
    by (cases "try_handler impl beh h e st")
  have c: "calls st' = calls st @ [(h, e)]"
    using try_handler_calls [of impl beh h e st] t by simp
  have l': "layers st' = ?s"
    using try_handler_layers [of beh impl h e st, OF nm] t l by simp
  obtain new where n: "calls (snd (walk impl beh e (length older) st')) = calls st' @ new"
    and from_older: "\<forall>c\<in>set new. \<exists>K\<in>set (take (length older) (layers st')).
        dict_lookup K (type_attr impl e) = Some (fst c)"
    using walk_new_calls [of beh impl e "length older" st', OF nm] by blast
  have "\<forall>c\<in>set new. fst c \<noteq> h"
    using from_older older by (auto simp: l' ev)
  then have "\<exists>rest. calls (snd (walk impl beh e (length ?s) st)) = calls st @ (h, e) # rest \<and>
           (\<forall>c\<in>set rest. fst c \<noteq> h)"
    unfolding w1 t using n c by (cases sg) auto
  then show ?thesis
    using dispatch_single_calls(1) [OF stack ev(1), of impl beh] by simp
qed

theorem topmost_handler_called_once_witness:
  "\<exists>rest. calls (snd (dispatch Events beh_decline [key_event]
        (with_stack ([[(PStr ''key'', PFunc 0)]] @ [[(PStr ''key'', PFunc 1)]] @ [[(PStr ''click'', PFunc 2)]]))))
      = [] @ (PFunc 1, key_event) # rest \<and> (\<forall>c\<in>set rest. fst c \<noteq> PFunc 1)"
  using topmost_handler_called_once [of
      "with_stack ([[(PStr ''key'', PFunc 0)]] @ [[(PStr ''key'', PFunc 1)]] @ [[(PStr ''click'', PFunc 2)]])"
      "[[(PStr ''key'', PFunc 0)]]" "[(PStr ''key'', PFunc 1)]" "[[(PStr ''click'', PFunc 2)]]"
      key_event Events "''key''" "PFunc 1" beh_decline]
  by (simp add: with_stack_def key_event_def beh_decline_def)

section \<open>Values that are not events\<close>

lemma dispatch_events_append:
  "dispatch_events impl beh (xs @ ys) st =
     (case dispatch_events impl beh xs st of
        (Inl x, st') \<Rightarrow> (Inl x, st')
      | (Inr u, st') \<Rightarrow> dispatch_events impl beh ys st')"
  by (induction xs arbitrary: st) (auto split: prod.splits option.splits sum.splits)

text \<open>
  Claim C6 as stated fails: the \<^verbatim>\<open>assert\<close> ends the whole call. Dispatching the string
  \<^verbatim>\<open>'key'\<close> followed by a \<^verbatim>\<open>'key'\<close> event raises \<^verbatim>\<open>AssertionError\<close> and calls no
  handler, although the event dispatched alone reaches the handler.
\<close>

theorem later_events_not_processed_counterexample:
  "dispatch Events beh_decline [PStr ''key'', key_event] (with_stack [[(PStr ''key'', PFunc 0)]])
     = (Inl AssertionError, with_stack [[(PStr ''key'', PFunc 0)]]) \<and>
   calls (with_stack [[(PStr ''key'', PFunc 0)]]) = [] \<and>
   calls (snd (dispatch Events beh_decline [key_event] (with_stack [[(PStr ''key'', PFunc 0)]])))
     = [(PFunc 0, key_event)]"
  by (simp add: dispatch_def with_stack_def key_event_def layers_def try_handler_def
      dict_get_def beh_decline_def walk.simps)

text \<open>
  Claim C6, amended. When \<^verbatim>\<open>dispatch\<close> reaches an argument that is not an instance of
  \<^verbatim>\<open>Event\<close>, it raises \<^verbatim>\<open>AssertionError\<close> at once: the events before it have been
  dispatched exactly as a call with them alone dispatches them, and the arguments after
  it play no part, they are not processed.
\<close>

theorem invalid_event_aborts_call:
  assumes "\<not> isinstance_Event bad" "fst (dispatch impl beh pre st) = Inr ()"
  shows "dispatch impl beh (pre @ bad # post) st
           = (Inl AssertionError, snd (dispatch impl beh pre st))"
  using assms
  by (auto simp: dispatch_def dispatch_events_append split: prod.splits sum.splits)

theorem invalid_event_aborts_call_witness:
  "dispatch Events beh_decline ([key_event] @ PStr ''key'' # [key_event])
      (with_stack [[(PStr ''key'', PFunc 0)]])
     = (Inl AssertionError,
        snd (dispatch Events beh_decline [key_event] (with_stack [[(PStr ''key'', PFunc 0)]]))) \<and>
   calls (snd (dispatch Events beh_decline [key_event] (with_stack [[(PStr ''key'', PFunc 0)]])))
     = [(PFunc 0, key_event)]"
proof -
  have d: "dispatch Events beh_decline [key_event] (with_stack [[(PStr ''key'', PFunc 0)]])
     = (Inr (), \<lparr>handler_stack = Some [[(PStr ''key'', PFunc 0)]], world = (),
                 calls = [(PFunc 0, key_event)], logged = []\<rparr>)"
    by (simp add: dispatch_def with_stack_def key_event_def layers_def try_handler_def
        dict_get_def beh_decline_def walk.simps)
  show ?thesis
    using invalid_event_aborts_call [of "PStr ''key''" Events beh_decline "[key_event]"
        "with_stack [[(PStr ''key'', PFunc 0)]]" "[key_event]"]
    by (simp add: d)
qed

section \<open>The stack during dispatch\<close>

lemma dispatch_events_layers:
  assumes "\<And>h e s w. fst (snd (beh h e (s, w))) = s"
  shows "layers (snd (dispatch_events impl beh events st)) = layers st"
proof (induction events arbitrary: st)
  case Nil
  show ?case by simp
next
  case (Cons e es)
  show ?case
  proof (cases "isinstance_Event e")
    case False
    then show ?thesis by simp
  next
    case True
    obtain r st' where w: "walk impl beh e (length (layers st)) st = (r, st')"
      by (cases "walk impl beh e (length (layers st)) st")
    have "layers st' = layers st"
      using walk_layers [of beh impl e "length (layers st)" st, OF assms] w by simp
    then show ?thesis
      using True w Cons.IH [of st'] by (cases r) simp_all
  qed
qed

text \<open>
  Claim C10. If no handler changes the stack while it runs, \<^verbatim>\<open>dispatch\<close> leaves the
  layers as they were: the same number of layers, each with the same bindings, for any
  arguments, whether the call returns or raises. (On a dispatcher whose attribute was
  never set, it sets the attribute to the empty list.)
\<close>

theorem dispatch_leaves_stack:
  assumes "\<And>h e s w. fst (snd (beh h e (s, w))) = s"
  shows "layers (snd (dispatch impl beh events st)) = layers st"
  by (simp add: dispatch_def dispatch_events_layers [OF assms]) (simp add: layers_def)

theorem dispatch_leaves_stack_witness:
  "layers (snd (dispatch UEvents beh_fail [key_event, PNone, key_event]
       (with_stack [[(PStr ''key'', PFunc 0)], [(PStr ''key'', PFunc 1)]])))
     = [[(PStr ''key'', PFunc 0)], [(PStr ''key'', PFunc 1)]] \<and>
   layers (snd (dispatch Events beh_fail [key_event] st0)) = []"
  using dispatch_leaves_stack [of beh_fail UEvents "[key_event, PNone, key_event]"
      "with_stack [[(PStr ''key'', PFunc 0)], [(PStr ''key'', PFunc 1)]]"]
    dispatch_leaves_stack [of beh_fail Events "[key_event]" st0]
  by (simp add: beh_fail_def with_stack_def st0_def layers_def)

section \<open>The modules' own test runs\<close>

text \<open>
  The model run on what the \<^verbatim>\<open>_test\<close> functions do: two pushes, then a dispatch of a
  \<^verbatim>\<open>KeyEvent\<close> and of an \<^verbatim>\<open>Event\<close> constructed with \<^verbatim>\<open>type='click'\<close>. In \<^verbatim>\<open>events.py\<close>
  the key event reaches the method and then the function, and the click event reaches
  the method, which claims it. In \<^verbatim>\<open>uevents.py\<close> the second layer stays empty, because
  the members of \<^verbatim>\<open>Handler()\<close> are bound methods and the side table is keyed by the
  functions, and the click event is routed by \<^verbatim>\<open>None\<close>, because its attribute \<^verbatim>\<open>type\<close> is
  the class attribute: only \<^verbatim>\<open>handle_key\<close> is called.
\<close>

lemmas test_defs = test_pushed_def test_marks_def test_members_def test_key_event_def
  test_click_event_def test_beh_def st0_def no_marks_def on_event_def mark_target_def is_event_def
  push_handlers_def members_of_def mark_of_def ismethod_def dict_setitem_def dict_get_def
  dict_contains_def Event_init_def layers_def py_eq_def

lemma events_test_layers:
  "handler_stack (test_pushed Events)
     = Some [[(PStr ''click'', PFunc 1), (PStr ''key'', PFunc 0)],
             [(PStr ''click'', PMethod 0 3), (PStr ''key'', PMethod 0 2)]]"
  by (simp add: test_defs)

lemma uevents_test_layers:
  "handler_stack (test_pushed UEvents)
     = Some [[(PStr ''click'', PFunc 1), (PStr ''key'', PFunc 0)], []]"
  by (simp add: test_defs)

lemma events_test_run:
  "calls (snd (dispatch Events test_beh [test_key_event Events, test_click_event Events]
                 (test_pushed Events)))
     = [(PMethod 0 2, test_key_event Events), (PFunc 0, test_key_event Events),
        (PMethod 0 3, test_click_event Events)]"
  by (simp add: test_defs dispatch_def try_handler_def walk.simps)

lemma uevents_test_run:
  "calls (snd (dispatch UEvents test_beh [test_key_event UEvents, test_click_event UEvents]
                 (test_pushed UEvents)))
     = [(PFunc 0, test_key_event UEvents)]"
  by (simp add: test_defs dispatch_def try_handler_def walk.simps)

end
